theory Spec2Isabelle
  imports Main
begin

section \<open>Object store\<close>

text \<open>
  JavaScript objects have identity: two objects with equal fields are still two objects,
  and one object may be referenced from several places. Objects therefore live in a
  store, and a reference is the position of the object in it. \<open>new\<close> appends an
  object to the store and returns its position, so every reference that a constructor
  returns is fresh.
\<close>

type_synonym ref = nat

datatype error = Error string | TypeError | RangeError

definition lookup :: "'a list \<Rightarrow> ref \<Rightarrow> 'a option" where
  "lookup h r = (if r < length h then Some (h ! r) else None)"

definition alloc :: "'a list \<Rightarrow> 'a \<Rightarrow> ref \<times> 'a list" where
  "alloc h obj = (length h, h @ [obj])"

section \<open>Products and collections (JavaScript/2-simple.js)\<close>

text \<open>
  \<open>Product\<close> has the fields \<open>name\<close> and \<open>productPrice\<close>; \<open>Collection\<close> has
  the fields \<open>name\<close> and \<open>set\<close>, a JavaScript \<open>Set\<close> of references. A \<open>Set\<close>
  keeps its members in insertion order and holds no member twice, so it is a list of
  references to which a member is appended only when it is not there yet.
  The constructor of \<open>Product\<close> stores whatever it is given as the price, so the type
  of prices is left open: any type \<open>'v\<close> of values with the \<open>0\<close> and the \<open>+\<close> of
  the host language on it. No law of arithmetic is assumed of them: the classes
  \<open>zero\<close> and \<open>plus\<close> only provide the two symbols.
\<close>

datatype 'v item = Product string 'v | Collection string "ref list"

definition Set_add :: "ref list \<Rightarrow> ref \<Rightarrow> ref list" where
  "Set_add s x = (if x \<in> set s then s else s @ [x])"

definition new_Set :: "ref list \<Rightarrow> ref list" where
  "new_Set products = foldl Set_add [] products"

definition new_Product :: "'v item list \<Rightarrow> string \<Rightarrow> 'v \<Rightarrow> ref \<times> 'v item list" where
  "new_Product h name price = alloc h (Product name price)"

definition new_Collection :: "'v item list \<Rightarrow> string \<Rightarrow> ref list \<Rightarrow> ref \<times> 'v item list" where
  "new_Collection h name products = alloc h (Collection name (new_Set products))"

text \<open>
  The loop of \<open>Collection.price\<close>: \<open>price += item.price\<close> for each member, in the
  order of the set. An exception thrown by a member's getter leaves the loop.
\<close>

fun sum_prices :: "(ref \<Rightarrow> error + 'v::plus) \<Rightarrow> ref list \<Rightarrow> 'v \<Rightarrow> error + 'v" where
  "sum_prices get [] price = Inr price"
| "sum_prices get (item # rest) price =
     (case get item of
        Inl e \<Rightarrow> Inl e
      | Inr p \<Rightarrow> sum_prices get rest (price + p))"

text \<open>
  The getter \<open>price\<close>, dispatched on the class of the object. A collection may hold
  itself (its \<open>set\<close> is a public field), and then the getter calls itself without end
  until the engine throws \<open>RangeError\<close> for the exhausted call stack: the first
  argument is the number of nested calls the stack still has room for. A reference
  outside the store stands for a member that is no object (\<open>undefined\<close>), whose
  property access throws \<open>TypeError\<close>.
\<close>

fun price :: "nat \<Rightarrow> 'v::{zero,plus} item list \<Rightarrow> ref \<Rightarrow> error + 'v" where
  "price 0 h self = Inl RangeError"
| "price (Suc depth) h self =
     (case lookup h self of
        None \<Rightarrow> Inl TypeError
      | Some (Product name productPrice) \<Rightarrow> Inr productPrice
      | Some (Collection name s) \<Rightarrow> sum_prices (price depth h) s 0)"

text \<open>
  The numbers of the host language whose value is an integer: the finite ones, the two
  infinities and \<open>NaN\<close>. A finite number is a 64-bit IEEE 754 value: an integer of
  magnitude up to \<open>2^53\<close>, or a larger one with 53 significant bits below
  \<open>2^1024\<close>. \<open>round_to_double\<close> is the rounding of an exact integer result to the
  nearest such number, a tie going to the one with the even significand and a result
  of magnitude \<open>2^1024\<close> or more to an infinity; \<open>ulp m\<close> is the distance between
  neighbouring numbers at the magnitude \<open>m\<close>. \<open>number_add\<close> is the addition of the
  host on these numbers. Numbers with a fractional part and the negative zero are not
  among them; the statements about \<open>price\<close> hold for every type of prices and do not
  rest on this one, which runs the scripts and gives the instances.
\<close>

datatype number = Finite int | Infinity | NegativeInfinity | NaN

function ulp :: "int \<Rightarrow> int" where
  "ulp m = (if m < 2 ^ 53 then 1 else 2 * ulp (m div 2))"
  by pat_completeness auto
termination
  by (relation "measure nat") auto

definition round_to_double :: "int \<Rightarrow> number" where
  "round_to_double x =
     (if \<bar>x\<bar> \<le> 2 ^ 53 then Finite x
      else
        let m = \<bar>x\<bar>;
            u = ulp m;
            q = m div u;
            r = m mod u;
            q' = (if 2 * r < u then q
                  else if u < 2 * r then q + 1
                  else if even q then q else q + 1);
            y = q' * u
        in if 2 ^ 1024 \<le> y then (if x < 0 then NegativeInfinity else Infinity)
           else Finite (if x < 0 then - y else y))"

fun number_add :: "number \<Rightarrow> number \<Rightarrow> number" where
  "number_add NaN y = NaN"
| "number_add x NaN = NaN"
| "number_add Infinity NegativeInfinity = NaN"
| "number_add NegativeInfinity Infinity = NaN"
| "number_add Infinity y = Infinity"
| "number_add x Infinity = Infinity"
| "number_add NegativeInfinity y = NegativeInfinity"
| "number_add x NegativeInfinity = NegativeInfinity"
| "number_add (Finite a) (Finite b) = round_to_double (a + b)"

instantiation number :: "{zero, plus}"
begin

definition zero_number :: number where
  "zero_number = Finite 0"

definition plus_number :: "number \<Rightarrow> number \<Rightarrow> number" where
  "plus_number = number_add"

instance ..

end

text \<open>
The usage section of the script: six products, two collections and the purchase.
\<close>

definition usage :: "number item list" where
  "usage =
     (let (p1, h) = new_Product [] ''Laptop'' (Finite 1500);
          (p2, h) = new_Product h ''Mouse'' (Finite 25);
          (p3, h) = new_Product h ''Keyboard'' (Finite 100);
          (p4, h) = new_Product h ''HDMI cable'' (Finite 10);
          (electronics, h) = new_Collection h ''Electronics'' [p1, p2, p3, p4];
          (p5, h) = new_Product h ''Bag'' (Finite 50);
          (p6, h) = new_Product h ''Mouse pad'' (Finite 5);
          (textile, h) = new_Collection h ''Textile'' [p5, p6];
          (purchase, h) = new_Collection h ''Purchase'' [electronics, textile]
      in h)"

definition electronics :: ref where "electronics = 4"
definition textile :: ref where "textile = 7"
definition purchase :: ref where "purchase = 8"

text \<open>
  A finite tree of priced items of height at most \<open>k\<close>: every reference reached is
  in the store, and no collection is reached from itself.
\<close>

fun priced_tree :: "'v item list \<Rightarrow> ref \<Rightarrow> nat \<Rightarrow> bool" where
  "priced_tree h r 0 = False"
| "priced_tree h r (Suc k) =
     (case lookup h r of
        None \<Rightarrow> False
      | Some (Product name productPrice) \<Rightarrow> True
      | Some (Collection name s) \<Rightarrow> list_all (\<lambda>x. priced_tree h x k) s)"

text \<open>
  Where the host adds exactly. An integer of magnitude at most \<open>2^53\<close> is a number
  of the host, and the host's sum of two of them is their sum as long as that is in
  the range again. \<open>exact_addition num\<close> says so of the way \<open>num\<close> in which the
  integers are prices; \<open>exact_sums acc ps\<close> says that adding the integers \<open>ps\<close> to
  \<open>acc\<close> one after the other never leaves the range.
\<close>

definition exact_integer :: "int \<Rightarrow> bool" where
  "exact_integer i = (\<bar>i\<bar> \<le> 2 ^ 53)"

definition exact_addition :: "(int \<Rightarrow> 'v::{zero,plus}) \<Rightarrow> bool" where
  "exact_addition num =
     (num 0 = 0 \<and>
      (\<forall>a b. exact_integer a \<and> exact_integer b \<and> exact_integer (a + b) \<longrightarrow>
         num a + num b = num (a + b)))"

fun exact_sums :: "int \<Rightarrow> int list \<Rightarrow> bool" where
  "exact_sums acc [] = exact_integer acc"
| "exact_sums acc (p # ps) =
     (exact_integer acc \<and> exact_integer p \<and> exact_sums (acc + p) ps)"

section \<open>View components (the composite script)\<close>

text \<open>
  The four classes. \<open>ViewComposite\<close> and \<open>DecoratorComposite\<close> carry the private
  array \<open>#children\<close>, \<open>PrintLeaf\<close> carries \<open>text\<close>, the base class \<open>ViewComponent\<close>
  has no field. The state of the program is the store and the lines written by
  \<open>console.log\<close> so far.
\<close>

datatype view =
    ViewComponent
  | ViewComposite "ref list"
  | DecoratorComposite "ref list"
  | PrintLeaf string

record state =
  heap :: "view list"
  console :: "string list"

datatype outcome = Returned | Threw error

definition console_log :: "state \<Rightarrow> string \<Rightarrow> state" where
  "console_log s line = s\<lparr>console := console s @ [line]\<rparr>"

definition new_view :: "state \<Rightarrow> view \<Rightarrow> ref \<times> state" where
  "new_view s obj = (case alloc (heap s) obj of (r, h) \<Rightarrow> (r, s\<lparr>heap := h\<rparr>))"

definition new_ViewComponent :: "state \<Rightarrow> ref \<times> state" where
  "new_ViewComponent s = new_view s ViewComponent"

definition new_ViewComposite :: "state \<Rightarrow> ref \<times> state" where
  "new_ViewComposite s = new_view s (ViewComposite [])"

definition new_DecoratorComposite :: "state \<Rightarrow> ref \<times> state" where
  "new_DecoratorComposite s = new_view s (DecoratorComposite [])"

definition new_PrintLeaf :: "state \<Rightarrow> string \<Rightarrow> ref \<times> state" where
  "new_PrintLeaf s str = new_view s (PrintLeaf str)"

text \<open>
  \<open>add\<close> is a method of \<open>ViewComposite\<close>, inherited by \<open>DecoratorComposite\<close>:
  \<open>this.#children.push(child)\<close>. The other two classes have no such method, and
  calling a property that is \<open>undefined\<close> throws \<open>TypeError\<close>.
\<close>

definition add :: "state \<Rightarrow> ref \<Rightarrow> ref \<Rightarrow> outcome \<times> state" where
  "add s self child =
     (case lookup (heap s) self of
        Some (ViewComposite children) \<Rightarrow>
          (Returned, s\<lparr>heap := (heap s)[self := ViewComposite (children @ [child])]\<rparr>)
      | Some (DecoratorComposite children) \<Rightarrow>
          (Returned, s\<lparr>heap := (heap s)[self := DecoratorComposite (children @ [child])]\<rparr>)
      | _ \<Rightarrow> (Threw TypeError, s))"

text \<open>
  \<open>remove\<close> calls \<open>this.#children.remove(child)\<close>. \<open>#children\<close> is an \<open>Array\<close>,
  and arrays have no method \<open>remove\<close>: the property is \<open>undefined\<close>, the call throws
  \<open>TypeError\<close>, and nothing has been changed by then. On the classes without a
  method \<open>remove\<close> the call throws \<open>TypeError\<close> as well.
\<close>

definition remove :: "state \<Rightarrow> ref \<Rightarrow> ref \<Rightarrow> outcome \<times> state" where
  "remove s self child =
     (case lookup (heap s) self of
        Some (ViewComposite children) \<Rightarrow> (Threw TypeError, s)
      | Some (DecoratorComposite children) \<Rightarrow> (Threw TypeError, s)
      | _ \<Rightarrow> (Threw TypeError, s))"

text \<open>
  \<open>Array.prototype.forEach\<close> with the callback \<open>child => child.draw()\<close>: the
  children one after the other, each in the state the one before has left. An
  exception thrown by a callback leaves the loop.
\<close>

fun forEach :: "(state \<Rightarrow> ref \<Rightarrow> outcome \<times> state) \<Rightarrow> ref list \<Rightarrow> state \<Rightarrow> outcome \<times> state" where
  "forEach callback [] s = (Returned, s)"
| "forEach callback (child # rest) s =
     (case callback s child of
        (Returned, s') \<Rightarrow> forEach callback rest s'
      | (Threw e, s') \<Rightarrow> (Threw e, s'))"

text \<open>
  \<open>draw\<close>, dispatched on the class of the object: the base class throws
  \<open>Error('Not implemented')\<close>, the composite delegates to its children, the decorator
  logs \<open>NestedStart\<close>, calls \<open>super.draw()\<close> and logs \<open>NestedEnd\<close> (which it does
  not reach when \<open>super.draw()\<close> throws), the leaf logs its text. As for \<open>price\<close>,
  the first argument is the room left on the call stack: a composite that is its own
  descendant ends in \<open>RangeError\<close>. A reference outside the store stands for a child
  that is no object, whose method call throws \<open>TypeError\<close>.
\<close>

fun draw :: "nat \<Rightarrow> state \<Rightarrow> ref \<Rightarrow> outcome \<times> state" where
  "draw 0 s self = (Threw RangeError, s)"
| "draw (Suc depth) s self =
     (case lookup (heap s) self of
        None \<Rightarrow> (Threw TypeError, s)
      | Some ViewComponent \<Rightarrow> (Threw (Error ''Not implemented''), s)
      | Some (ViewComposite children) \<Rightarrow> forEach (draw depth) children s
      | Some (DecoratorComposite children) \<Rightarrow>
          (case forEach (draw depth) children (console_log s ''NestedStart'') of
             (Returned, s') \<Rightarrow> (Returned, console_log s' ''NestedEnd'')
           | (Threw e, s') \<Rightarrow> (Threw e, s'))
      | Some (PrintLeaf str) \<Rightarrow> (Returned, console_log s str))"

text \<open>
  \<open>[Symbol.iterator]()\<close> returns a new iterator of the array \<open>#children\<close>. An
  array iterator holds the array and the next index; \<open>next()\<close> yields the element at
  that index and moves on, or reports the end once the index has reached the length
  of the array, after which the iterator stays exhausted. The classes without the
  method are not iterable: \<open>TypeError\<close>.
\<close>

datatype iterator = ArrayIterator ref nat | Exhausted

definition children_of :: "view list \<Rightarrow> ref \<Rightarrow> ref list" where
  "children_of h r =
     (case lookup h r of
        Some (ViewComposite children) \<Rightarrow> children
      | Some (DecoratorComposite children) \<Rightarrow> children
      | _ \<Rightarrow> [])"

definition Symbol_iterator :: "state \<Rightarrow> ref \<Rightarrow> error + iterator" where
  "Symbol_iterator s self =
     (case lookup (heap s) self of
        Some (ViewComposite children) \<Rightarrow> Inr (ArrayIterator self 0)
      | Some (DecoratorComposite children) \<Rightarrow> Inr (ArrayIterator self 0)
      | _ \<Rightarrow> Inl TypeError)"

fun next_value :: "state \<Rightarrow> iterator \<Rightarrow> ref option \<times> iterator" where
  "next_value s Exhausted = (None, Exhausted)"
| "next_value s (ArrayIterator array index) =
     (if index < length (children_of (heap s) array)
      then (Some (children_of (heap s) array ! index), ArrayIterator array (Suc index))
      else (None, Exhausted))"

text \<open>
  What a \<open>for ... of\<close> loop receives from an iterator while its body leaves the
  array alone: the values of \<open>next()\<close> up to the end.
\<close>

fun remaining :: "state \<Rightarrow> iterator \<Rightarrow> nat" where
  "remaining s Exhausted = 0"
| "remaining s (ArrayIterator array index) = Suc (length (children_of (heap s) array) - index)"

function for_of :: "state \<Rightarrow> iterator \<Rightarrow> ref list" where
  "for_of s it =
     (case next_value s it of
        (None, it') \<Rightarrow> []
      | (Some child, it') \<Rightarrow> child # for_of s it')"
  by pat_completeness auto
termination
proof (relation "measure (\<lambda>(s, it). remaining s it)")
  show "wf (measure (\<lambda>(s, it). remaining s it))"
    by simp
next
  fix s :: state and it it' :: iterator and v child
  assume "(v, it') = next_value s it" and "v = Some child"
  then have "next_value s it = (Some child, it')"
    by simp
  then have "remaining s it' < remaining s it"
    by (cases it) (auto split: if_splits)
  then show "((s, it'), (s, it)) \<in> measure (\<lambda>(s, it). remaining s it)"
    by simp
qed

text \<open>
  The usage section of the script up to the first \<open>draw\<close>: three leaves, two
  composites that share the leaf \<open>world\<close>, and the decorator that holds both.
\<close>

definition hello :: ref where "hello = 0"
definition world :: ref where "world = 1"
definition js :: ref where "js = 2"
definition helloView :: ref where "helloView = 3"
definition jsView :: ref where "jsView = 4"
definition nestedView :: ref where "nestedView = 5"

definition views :: state where
  "views =
     (let s = \<lparr>heap = [], console = []\<rparr>;
          (hello, s) = new_PrintLeaf s ''hello'';
          (world, s) = new_PrintLeaf s ''world'';
          (js, s) = new_PrintLeaf s ''js'';
          (helloView, s) = new_ViewComposite s;
          (_, s) = add s helloView hello;
          (_, s) = add s helloView world;
          (jsView, s) = new_ViewComposite s;
          (_, s) = add s jsView world;
          (_, s) = add s jsView js;
          (nestedView, s) = new_DecoratorComposite s;
          (_, s) = add s nestedView helloView;
          (_, s) = add s nestedView jsView
      in s)"

text \<open>
  A finite tree of views of height at most \<open>k\<close>, built from leaves, composites and
  decorators: every reference reached is in the store, none is an instance of the base
  class, and no composite is reached from itself.
\<close>

fun view_tree :: "view list \<Rightarrow> ref \<Rightarrow> nat \<Rightarrow> bool" where
  "view_tree h r 0 = False"
| "view_tree h r (Suc k) =
     (case lookup h r of
        None \<Rightarrow> False
      | Some ViewComponent \<Rightarrow> False
      | Some (ViewComposite children) \<Rightarrow> list_all (\<lambda>c. view_tree h c k) children
      | Some (DecoratorComposite children) \<Rightarrow> list_all (\<lambda>c. view_tree h c k) children
      | Some (PrintLeaf str) \<Rightarrow> True)"

text \<open>
  What a call of \<open>draw\<close> writes and how it ends, read off a run that starts with an
  empty console.
\<close>

definition written :: "nat \<Rightarrow> view list \<Rightarrow> ref \<Rightarrow> string list" where
  "written depth h r = console (snd (draw depth \<lparr>heap = h, console = []\<rparr> r))"

definition result :: "nat \<Rightarrow> view list \<Rightarrow> ref \<Rightarrow> outcome" where
  "result depth h r = fst (draw depth \<lparr>heap = h, console = []\<rparr> r)"

declare for_of.simps [simp del]

declare ulp.simps [simp del]

section \<open>The store\<close>

lemma lookup_alloc_new: "alloc h obj = (r, h') \<Longrightarrow> lookup h' r = Some obj"
  by (auto simp: alloc_def lookup_def)

lemma lookup_append_new: "lookup (h @ [obj]) (length h) = Some obj"
  by (simp add: lookup_def)

section \<open>Prices\<close>

lemma sum_prices_Inr:
  "(\<And>x. x \<in> set xs \<Longrightarrow> get x = Inr (f x)) \<Longrightarrow>
   sum_prices get xs acc = Inr (foldl (\<lambda>t x. t + f x) acc xs)"
  by (induction xs arbitrary: acc) simp_all

lemma foldl_Set_add:
  "distinct acc \<Longrightarrow>
   distinct (foldl Set_add acc xs) \<and> set (foldl Set_add acc xs) = set acc \<union> set xs"
  by (induction xs arbitrary: acc) (auto simp: Set_add_def)

lemma distinct_new_Set: "distinct (new_Set xs)"
  by (simp add: new_Set_def foldl_Set_add)

lemma set_new_Set: "set (new_Set xs) = set xs"
  by (simp add: new_Set_def foldl_Set_add)

lemma new_Set_twice: "new_Set [a, a] = [a]"
  by (simp add: new_Set_def Set_add_def)

lemma new_Set_two: "a \<noteq> b \<Longrightarrow> new_Set [a, b] = [a, b]"
  by (simp add: new_Set_def Set_add_def)

lemma price_Product: "lookup h r = Some (Product nm p) \<Longrightarrow> price (Suc n) h r = Inr p"
  by simp

lemma price_Collection:
  assumes "lookup h r = Some (Collection nm s)"
    and "\<And>x. x \<in> set s \<Longrightarrow> price n h x = Inr (f x)"
  shows "price (Suc n) h r = Inr (foldl (\<lambda>t x. t + f x) 0 s)"
  using assms sum_prices_Inr [of s "price n h" f 0] by simp

lemma exact_foldl:
  assumes "exact_addition num"
  shows "exact_sums acc ps \<Longrightarrow>
         foldl (\<lambda>t p. t + num p) (num acc) ps = num (acc + sum_list ps)"
proof (induction ps arbitrary: acc)
  case Nil
  show ?case by simp
next
  case (Cons p ps)
  then have "exact_integer acc" "exact_integer p" "exact_sums (acc + p) ps"
    by simp_all
  moreover from this(3) have "exact_integer (acc + p)"
    by (cases ps) simp_all
  ultimately have "num acc + num p = num (acc + p)"
    using assms by (simp add: exact_addition_def)
  with Cons.IH [OF \<open>exact_sums (acc + p) ps\<close>] show ?case
    by (simp add: add.assoc)
qed

lemma price_Collection_exact:
  assumes "exact_addition num"
    and "lookup h r = Some (Collection nm s)"
    and "\<And>x. x \<in> set s \<Longrightarrow> price n h x = Inr (num (g x))"
    and "exact_sums 0 (map g s)"
  shows "price (Suc n) h r = Inr (num (\<Sum>x\<leftarrow>s. g x))"
proof -
  have "price (Suc n) h r = Inr (foldl (\<lambda>t x. t + num (g x)) 0 s)"
    using assms(2,3) by (rule price_Collection)
  also have "foldl (\<lambda>t x. t + num (g x)) 0 s = foldl (\<lambda>t p. t + num p) (num 0) (map g s)"
    using assms(1) by (simp add: foldl_map exact_addition_def)
  also have "\<dots> = num (0 + sum_list (map g s))"
    using assms(1,4) by (rule exact_foldl)
  finally show ?thesis by simp
qed

lemma exact_addition_Finite: "exact_addition Finite"
  by (simp add: exact_addition_def exact_integer_def zero_number_def plus_number_def
      round_to_double_def)

lemma priced_tree_price:
  "priced_tree h r k \<Longrightarrow> \<exists>p. \<forall>m. price (k + m) h r = Inr p"
proof (induction k arbitrary: r)
  case 0
  then show ?case by simp
next
  case (Suc k)
  show ?case
  proof (cases "lookup h r")
    case None
    with Suc.prems show ?thesis by simp
  next
    case (Some obj)
    show ?thesis
    proof (cases obj)
      case (Product nm p)
      with Some show ?thesis by simp
    next
      case (Collection nm s)
      with Some Suc.prems have "\<forall>x\<in>set s. priced_tree h x k"
        by (simp add: list_all_iff)
      with Suc.IH have "\<forall>x\<in>set s. \<exists>p. \<forall>m. price (k + m) h x = Inr p"
        by blast
      then obtain f where f: "\<forall>x\<in>set s. \<forall>m. price (k + m) h x = Inr (f x)"
        by metis
      have "\<forall>m. price (Suc k + m) h r = Inr (foldl (\<lambda>t x. t + f x) 0 s)"
      proof
        fix m
        from f have "\<And>x. x \<in> set s \<Longrightarrow> price (k + m) h x = Inr (f x)"
          by blast
        with Some Collection
        show "price (Suc k + m) h r = Inr (foldl (\<lambda>t x. t + f x) 0 s)"
          using price_Collection [of h r nm s "k + m" f] by simp
      qed
      then show ?thesis by blast
    qed
  qed
qed

lemma priced_tree_returns:
  assumes "priced_tree h r k"
  shows "\<exists>p. \<forall>n\<ge>k. price n h r = Inr p"
proof -
  from priced_tree_price [OF assms] obtain p where p: "\<forall>m. price (k + m) h r = Inr p"
    by blast
  have "\<forall>n\<ge>k. price n h r = Inr p"
  proof (intro allI impI)
    fix n assume "k \<le> n"
    then have "n = k + (n - k)" by simp
    with p show "price n h r = Inr p" by metis
  qed
  then show ?thesis by blast
qed

lemma usage_eq:
  "usage =
     [Product ''Laptop'' (Finite 1500), Product ''Mouse'' (Finite 25),
      Product ''Keyboard'' (Finite 100), Product ''HDMI cable'' (Finite 10),
      Collection ''Electronics'' [0, 1, 2, 3],
      Product ''Bag'' (Finite 50), Product ''Mouse pad'' (Finite 5),
      Collection ''Textile'' [5, 6], Collection ''Purchase'' [4, 7]]"
  by (simp add: usage_def new_Product_def new_Collection_def alloc_def new_Set_def Set_add_def)

lemma Finite_add_exact:
  "\<bar>a + b\<bar> \<le> 2 ^ 53 \<Longrightarrow> Finite a + Finite b = Finite (a + b)"
  by (simp add: plus_number_def round_to_double_def)

text \<open>
  Beyond \<open>2^53\<close> the sum of two numbers is rounded, and from \<open>2^1024\<close> on it is
  an infinity.
\<close>

lemma number_add_rounds:
  "Finite (2 ^ 53) + Finite 1 = Finite (2 ^ 53) \<and>
   Finite (2 ^ 53) + Finite 3 = Finite (2 ^ 53 + 4)"
  by code_simp

lemma number_add_overflows: "Finite (2 ^ 1023) + Finite (2 ^ 1023) = Infinity"
  by code_simp

section \<open>Drawing\<close>

text \<open>\<open>draw\<close> never writes to the store.\<close>

lemma forEach_heap:
  assumes "\<And>s c. heap (snd (f s c)) = heap s"
  shows "heap (snd (forEach f cs s)) = heap s"
proof (induction cs arbitrary: s)
  case Nil
  show ?case by simp
next
  case (Cons c cs)
  obtain res s' where fs: "f s c = (res, s')"
    by (cases "f s c")
  with assms [of s c] have h: "heap s' = heap s"
    by simp
  show ?case
  proof (cases res)
    case Returned
    with fs Cons.IH [of s'] h show ?thesis by simp
  next
    case (Threw e)
    with fs h show ?thesis by simp
  qed
qed

lemma draw_heap: "heap (snd (draw n s r)) = heap s"
proof (induction n arbitrary: s r)
  case 0
  show ?case by simp
next
  case (Suc n)
  have each: "\<And>cs s. heap (snd (forEach (draw n) cs s)) = heap s"
    using forEach_heap [of "draw n"] Suc.IH by blast
  show ?case
  proof (cases "lookup (heap s) r")
    case None
    then show ?thesis by simp
  next
    case (Some obj)
    show ?thesis
    proof (cases obj)
      case ViewComponent
      with Some show ?thesis by simp
    next
      case (ViewComposite cs)
      with Some each show ?thesis by simp
    next
      case (DecoratorComposite cs)
      obtain res s' where fe: "forEach (draw n) cs (console_log s ''NestedStart'') = (res, s')"
        by (cases "forEach (draw n) cs (console_log s ''NestedStart'')")
      with each [of cs "console_log s ''NestedStart''"] have "heap s' = heap s"
        by (simp add: console_log_def)
      with Some DecoratorComposite fe show ?thesis
        by (cases res) (simp_all add: console_log_def)
    next
      case (PrintLeaf str)
      with Some show ?thesis by (simp add: console_log_def)
    qed
  qed
qed

text \<open>
  What \<open>draw\<close> does to the console is to append lines to it, and neither the lines
  nor the way the call ends depend on what the console held before.
\<close>

lemma forEach_appends:
  assumes "\<And>c. \<exists>res out. \<forall>s. heap s = h \<longrightarrow> f s c = (res, s\<lparr>console := console s @ out\<rparr>)"
  shows "\<exists>res out. \<forall>s. heap s = h \<longrightarrow> forEach f cs s = (res, s\<lparr>console := console s @ out\<rparr>)"
proof (induction cs)
  case Nil
  have "\<forall>s. heap s = h \<longrightarrow> forEach f [] s = (Returned, s\<lparr>console := console s @ []\<rparr>)"
    by simp
  then show ?case by blast
next
  case (Cons c cs)
  from assms [of c] obtain res1 out1
    where one: "\<And>s. heap s = h \<Longrightarrow> f s c = (res1, s\<lparr>console := console s @ out1\<rparr>)"
    by blast
  from Cons.IH obtain res2 out2
    where two: "\<And>s. heap s = h \<Longrightarrow> forEach f cs s = (res2, s\<lparr>console := console s @ out2\<rparr>)"
    by blast
  show ?case
  proof (cases res1)
    case Returned
    have "\<forall>s. heap s = h \<longrightarrow>
            forEach f (c # cs) s = (res2, s\<lparr>console := console s @ (out1 @ out2)\<rparr>)"
      using one two [of "s\<lparr>console := console s @ out1\<rparr>" for s] Returned by simp
    then show ?thesis by blast
  next
    case (Threw e)
    have "\<forall>s. heap s = h \<longrightarrow>
            forEach f (c # cs) s = (Threw e, s\<lparr>console := console s @ out1\<rparr>)"
      using one Threw by simp
    then show ?thesis by blast
  qed
qed

lemma draw_appends:
  "\<exists>res out. \<forall>s. heap s = h \<longrightarrow> draw n s r = (res, s\<lparr>console := console s @ out\<rparr>)"
proof (induction n arbitrary: r)
  case 0
  have "\<forall>s. heap s = h \<longrightarrow> draw 0 s r = (Threw RangeError, s\<lparr>console := console s @ []\<rparr>)"
    by simp
  then show ?case by blast
next
  case (Suc n)
  have each: "\<exists>res out. \<forall>s. heap s = h \<longrightarrow>
                forEach (draw n) cs s = (res, s\<lparr>console := console s @ out\<rparr>)" for cs
    using forEach_appends [of h "draw n" cs] Suc.IH by blast
  show ?case
  proof (cases "lookup h r")
    case None
    then have "\<forall>s. heap s = h \<longrightarrow>
        draw (Suc n) s r = (Threw TypeError, s\<lparr>console := console s @ []\<rparr>)"
      by simp
    then show ?thesis by blast
  next
    case (Some obj)
    show ?thesis
    proof (cases obj)
      case ViewComponent
      with Some have "\<forall>s. heap s = h \<longrightarrow>
          draw (Suc n) s r = (Threw (Error ''Not implemented''), s\<lparr>console := console s @ []\<rparr>)"
        by simp
      then show ?thesis by blast
    next
      case (ViewComposite cs)
      with Some each [of cs] show ?thesis by simp
    next
      case (DecoratorComposite cs)
      from each [of cs] obtain res out
        where fe: "\<And>s. heap s = h \<Longrightarrow>
                     forEach (draw n) cs s = (res, s\<lparr>console := console s @ out\<rparr>)"
        by blast
      show ?thesis
      proof (cases res)
        case Returned
        have "\<forall>s. heap s = h \<longrightarrow> draw (Suc n) s r =
                (Returned, s\<lparr>console := console s @ (''NestedStart'' # out @ [''NestedEnd''])\<rparr>)"
          using Some DecoratorComposite Returned fe [of "console_log s ''NestedStart''" for s]
          by (simp add: console_log_def)
        then show ?thesis by blast
      next
        case (Threw e)
        have "\<forall>s. heap s = h \<longrightarrow> draw (Suc n) s r =
                (Threw e, s\<lparr>console := console s @ (''NestedStart'' # out)\<rparr>)"
          using Some DecoratorComposite Threw fe [of "console_log s ''NestedStart''" for s]
          by (simp add: console_log_def)
        then show ?thesis by blast
      qed
    next
      case (PrintLeaf str)
      with Some have "\<forall>s. heap s = h \<longrightarrow>
          draw (Suc n) s r = (Returned, s\<lparr>console := console s @ [str]\<rparr>)"
        by (simp add: console_log_def)
      then show ?thesis by blast
    qed
  qed
qed

lemma draw_result_written:
  "draw n s r = (result n (heap s) r, s\<lparr>console := console s @ written n (heap s) r\<rparr>)"
proof -
  from draw_appends [of "heap s" n r] obtain res out
    where d: "\<And>s'. heap s' = heap s \<Longrightarrow> draw n s' r = (res, s'\<lparr>console := console s' @ out\<rparr>)"
    by blast
  from d [of "\<lparr>heap = heap s, console = []\<rparr>"]
  have "result n (heap s) r = res" and "written n (heap s) r = out"
    by (simp_all add: result_def written_def)
  with d [of s] show ?thesis by simp
qed

lemma forEach_draw_all_return:
  assumes "\<And>c. c \<in> set cs \<Longrightarrow> result n (heap s) c = Returned"
  shows "forEach (draw n) cs s =
           (Returned, s\<lparr>console := console s @ concat (map (written n (heap s)) cs)\<rparr>)"
  using assms
proof (induction cs arbitrary: s)
  case Nil
  show ?case by simp
next
  case (Cons c cs)
  let ?s' = "s\<lparr>console := console s @ written n (heap s) c\<rparr>"
  have "draw n s c = (Returned, ?s')"
    using draw_result_written [of n s c] Cons.prems by simp
  moreover have "forEach (draw n) cs ?s' =
      (Returned, ?s'\<lparr>console := console ?s' @ concat (map (written n (heap ?s')) cs)\<rparr>)"
    using Cons.IH [of ?s'] Cons.prems by simp
  ultimately show ?case by simp
qed

text \<open>
  On a finite tree of views \<open>draw\<close> returns as soon as the stack has room for the
  height of the tree, and more room changes nothing.
\<close>

lemma forEach_stable:
  assumes "\<And>c s. c \<in> set cs \<Longrightarrow> heap s = h \<Longrightarrow> f s c = g s c \<and> fst (g s c) = Returned"
    and "\<And>s c. heap (snd (g s c)) = heap s"
    and "heap s = h"
  shows "forEach f cs s = forEach g cs s \<and> fst (forEach g cs s) = Returned"
  using assms
proof (induction cs arbitrary: s)
  case Nil
  show ?case by simp
next
  case (Cons c cs)
  obtain res s' where g: "g s c = (res, s')"
    by (cases "g s c")
  from Cons.prems(1) [of c s] Cons.prems(3) g have f: "f s c = (Returned, s')" and res: "res = Returned"
    by simp_all
  from Cons.prems(2) [of s c] g Cons.prems(3) have "heap s' = h"
    by simp
  with Cons.IH [of s'] Cons.prems(1,2)
  have "forEach f cs s' = forEach g cs s' \<and> fst (forEach g cs s') = Returned"
    by simp
  with f g res show ?case by simp
qed

lemma view_tree_draw:
  "view_tree (heap s) r k \<Longrightarrow> draw (k + m) s r = draw k s r \<and> fst (draw k s r) = Returned"
proof (induction k arbitrary: r s)
  case 0
  then show ?case by simp
next
  case (Suc k)
  have each: "forEach (draw (k + m)) cs s' = forEach (draw k) cs s' \<and>
              fst (forEach (draw k) cs s') = Returned"
    if "list_all (\<lambda>c. view_tree (heap s) c k) cs" and "heap s' = heap s" for cs s'
  proof (rule forEach_stable [where h = "heap s"])
    fix c and s0 :: state assume "c \<in> set cs" and "heap s0 = heap s"
    with that(1) have "view_tree (heap s0) c k"
      by (simp add: list_all_iff)
    then show "draw (k + m) s0 c = draw k s0 c \<and> fst (draw k s0 c) = Returned"
      by (rule Suc.IH)
  next
    fix s0 :: state and c show "heap (snd (draw k s0 c)) = heap s0"
      by (rule draw_heap)
  next
    show "heap s' = heap s" by (rule that(2))
  qed
  show ?case
  proof (cases "lookup (heap s) r")
    case None
    with Suc.prems show ?thesis by simp
  next
    case (Some obj)
    show ?thesis
    proof (cases obj)
      case ViewComponent
      with Some Suc.prems show ?thesis by simp
    next
      case (ViewComposite cs)
      with Some Suc.prems have "list_all (\<lambda>c. view_tree (heap s) c k) cs"
        by simp
      from each [OF this, of s] Some ViewComposite show ?thesis
        by simp
    next
      case (DecoratorComposite cs)
      with Some Suc.prems have "list_all (\<lambda>c. view_tree (heap s) c k) cs"
        by simp
      from each [OF this, of "console_log s ''NestedStart''"] Some DecoratorComposite
      show ?thesis
        by (auto simp: console_log_def split: prod.splits outcome.splits)
    next
      case (PrintLeaf str)
      with Some show ?thesis by simp
    qed
  qed
qed

lemma view_tree_enough:
  assumes "view_tree (heap s) r k" and "k \<le> n"
  shows "draw n s r = draw k s r" and "fst (draw k s r) = Returned"
proof -
  from assms(2) have "n = k + (n - k)" by simp
  with view_tree_draw [OF assms(1), of "n - k"] show "draw n s r = draw k s r"
    by metis
  from view_tree_draw [OF assms(1)] show "fst (draw k s r) = Returned"
    by simp
qed

lemma view_tree_result:
  assumes "view_tree h r k" and "k \<le> n"
  shows "result n h r = Returned" and "written n h r = written k h r"
  using view_tree_enough [of "\<lparr>heap = h, console = []\<rparr>" r k n] assms
  by (simp_all add: result_def written_def)

lemma forEach_view_trees:
  assumes "\<forall>c\<in>set cs. view_tree (heap s) c k" and "k \<le> n"
  shows "forEach (draw n) cs s =
           (Returned, s\<lparr>console := console s @ concat (map (written k (heap s)) cs)\<rparr>)"
proof -
  from assms have "\<And>c. c \<in> set cs \<Longrightarrow> result n (heap s) c = Returned"
    using view_tree_result(1) by blast
  then have "forEach (draw n) cs s =
      (Returned, s\<lparr>console := console s @ concat (map (written n (heap s)) cs)\<rparr>)"
    by (rule forEach_draw_all_return)
  moreover from assms have "map (written n (heap s)) cs = map (written k (heap s)) cs"
    using view_tree_result(2) by simp
  ultimately show ?thesis by simp
qed

section \<open>Iteration\<close>

lemma children_of_add:
  assumes "lookup (heap s) r = Some (ViewComposite cs) \<or> lookup (heap s) r = Some (DecoratorComposite cs)"
  shows "children_of (heap (snd (add s r c))) r = cs @ [c]"
proof -
  from assms have "r < length (heap s)"
    by (auto simp: lookup_def split: if_splits)
  with assms show ?thesis
    by (auto simp: add_def children_of_def lookup_def)
qed

lemma for_of_drop:
  "for_of s (ArrayIterator r i) = drop i (children_of (heap s) r)"
proof (induction "length (children_of (heap s) r) - i" arbitrary: i)
  case 0
  then show ?case
    by (simp add: for_of.simps [of s "ArrayIterator r i"])
next
  case (Suc d)
  then have less: "i < length (children_of (heap s) r)" and "d = length (children_of (heap s) r) - Suc i"
    by simp_all
  with Suc.hyps(1) have "for_of s (ArrayIterator r (Suc i)) = drop (Suc i) (children_of (heap s) r)"
    by simp
  with less show ?case
    by (simp add: for_of.simps [of s "ArrayIterator r i"] Cons_nth_drop_Suc)
qed

section \<open>The scripts\<close>

lemma views_eq:
  "views = \<lparr>heap =
    [PrintLeaf ''hello'', PrintLeaf ''world'', PrintLeaf ''js'',
     ViewComposite [0, 1], ViewComposite [1, 2], DecoratorComposite [3, 4]],
    console = []\<rparr>"
  by (simp add: views_def new_PrintLeaf_def new_ViewComposite_def new_DecoratorComposite_def
      new_view_def alloc_def add_def lookup_def)

section \<open>The claims\<close>

text \<open>
  Claim C1 says that \<open>remove(child)\<close> on a composite that holds the child takes an
  occurrence of the child out of the child sequence, so that later calls of \<open>draw\<close>
  pass it by. The code does not do that: \<open>remove\<close> throws \<open>TypeError\<close> in every
  state and for every receiver and argument, and leaves the state as it was. In the
  script's state, \<open>helloView.remove(hello)\<close> throws, \<open>helloView\<close> still holds
  \<open>hello\<close> and \<open>world\<close>, and drawing it afterwards still prints \<open>hello\<close>.
\<close>

theorem remove_throws:
  "remove s r c = (Threw TypeError, s) \<and>
   children_of (heap views) helloView = [hello, world] \<and>
   remove views helloView hello = (Threw TypeError, views) \<and>
   children_of (heap (snd (remove views helloView hello))) helloView = [hello, world] \<and>
   draw 2 (snd (remove views helloView hello)) helloView =
     (Returned, views\<lparr>console := [''hello'', ''world'']\<rparr>)"
proof -
  have always: "remove s' r' c' = (Threw TypeError, s')" for s' r' c'
    by (simp add: remove_def split: option.splits view.splits)
  have kept: "children_of (heap views) helloView = [hello, world]"
    by (simp add: views_eq children_of_def lookup_def helloView_def hello_def world_def)
  have drawn: "draw 2 views helloView = (Returned, views\<lparr>console := [''hello'', ''world'']\<rparr>)"
    by (simp add: views_eq lookup_def helloView_def console_log_def numeral_2_eq_2)
  from always kept drawn show ?thesis
    by simp
qed

text \<open>
  Claim C2: the price of a product is the price stored in it; the price of a collection
  is the sum that the getter accumulates when the price is read: starting from \<open>0\<close>,
  the host's \<open>+\<close> of the prices of the members as they are then, in the order of the
  set, whatever the members are (products or collections, to any depth). Where the
  prices are integers and no partial sum leaves the range of magnitude \<open>2^53\<close>, that
  is the number of their sum. On a finite tree of items the getter returns one value
  however much room the stack has beyond the height of the tree. In the script,
  \<open>electronics\<close> costs 1635 and \<open>purchase\<close> 1690.
\<close>

theorem price_spec:
  "(lookup h x = Some (Product nm p) \<longrightarrow> price (Suc n) h x = Inr p) \<and>
   (lookup h r = Some (Collection cn s) \<and> (\<forall>m\<in>set s. price n h m = Inr (f m)) \<longrightarrow>
      price (Suc n) h r = Inr (foldl (\<lambda>t m. t + f m) 0 s)) \<and>
   (exact_addition num \<and> lookup h r = Some (Collection cn s) \<and>
    (\<forall>m\<in>set s. price n h m = Inr (num (g m))) \<and> exact_sums 0 (map g s) \<longrightarrow>
      price (Suc n) h r = Inr (num (\<Sum>m\<leftarrow>s. g m))) \<and>
   (priced_tree h r k \<longrightarrow> (\<exists>v. \<forall>d\<ge>k. price d h r = Inr v)) \<and>
   price 2 usage electronics = Inr (Finite 1635) \<and>
   price 3 usage purchase = Inr (Finite 1690)"
proof (intro conjI impI)
  assume "lookup h x = Some (Product nm p)"
  then show "price (Suc n) h x = Inr p"
    by (rule price_Product)
next
  assume "lookup h r = Some (Collection cn s) \<and> (\<forall>m\<in>set s. price n h m = Inr (f m))"
  then show "price (Suc n) h r = Inr (foldl (\<lambda>t m. t + f m) 0 s)"
    using price_Collection [of h r cn s n f] by blast
next
  assume "exact_addition num \<and> lookup h r = Some (Collection cn s) \<and>
          (\<forall>m\<in>set s. price n h m = Inr (num (g m))) \<and> exact_sums 0 (map g s)"
  then show "price (Suc n) h r = Inr (num (\<Sum>m\<leftarrow>s. g m))"
    using price_Collection_exact [of num h r cn s n g] by blast
next
  assume "priced_tree h r k"
  then show "\<exists>v. \<forall>d\<ge>k. price d h r = Inr v"
    by (rule priced_tree_returns)
next
  show "price 2 usage electronics = Inr (Finite 1635)"
    by (simp add: usage_eq electronics_def lookup_def numeral_2_eq_2 zero_number_def
        Finite_add_exact)
next
  show "price 3 usage purchase = Inr (Finite 1690)"
    by (simp add: usage_eq purchase_def lookup_def numeral_3_eq_3 zero_number_def
        Finite_add_exact)
qed

theorem price_spec_witness:
  "lookup usage 1 = Some (Product ''Mouse'' (Finite 25)) \<and> price 3 usage 1 = Inr (Finite 25) \<and>
   lookup usage purchase = Some (Collection ''Purchase'' [electronics, textile]) \<and>
   price 2 usage electronics = Inr (Finite 1635) \<and> price 2 usage textile = Inr (Finite 55) \<and>
   price 3 usage purchase = Inr (Finite 1635 + Finite 55) \<and>
   exact_addition Finite \<and> exact_sums 0 [1635, 55] \<and>
   price 3 usage purchase = Inr (Finite (1635 + 55)) \<and>
   priced_tree usage purchase 3 \<and>
   (\<exists>v. price 3 usage purchase = Inr v \<and> price 4 usage purchase = Inr v) \<and>
   price 2 [Product ''a'' (Finite (2 ^ 53)), Product ''b'' (Finite 1), Collection ''c'' [0, 1]] 2 =
     Inr (Finite (2 ^ 53))"
proof -
  let ?f = "\<lambda>m. if m = electronics then Finite 1635 else Finite 55"
  let ?g = "\<lambda>m. if m = electronics then 1635 else (55::int)"
  have product: "lookup usage 1 = Some (Product ''Mouse'' (Finite 25))"
    by (simp add: usage_eq lookup_def)
  have collection: "lookup usage purchase = Some (Collection ''Purchase'' [electronics, textile])"
    by (simp add: usage_eq lookup_def purchase_def electronics_def textile_def)
  have members: "\<forall>m\<in>set [electronics, textile]. price 2 usage m = Inr (?f m)"
    by (simp add: usage_eq lookup_def electronics_def textile_def numeral_2_eq_2
        zero_number_def Finite_add_exact)
  then have members': "\<forall>m\<in>set [electronics, textile]. price 2 usage m = Inr (Finite (?g m))"
    by simp
  have exact: "exact_addition Finite"
    by (rule exact_addition_Finite)
  have sums: "exact_sums 0 (map ?g [electronics, textile])"
    by (simp add: exact_integer_def electronics_def textile_def)
  have tree: "priced_tree usage purchase 3"
    by (simp add: usage_eq lookup_def purchase_def numeral_3_eq_3)
  note spec = price_spec [where h = usage and x = 1 and nm = "''Mouse''" and p = "Finite 25"
      and n = 2 and r = purchase and cn = "''Purchase''" and s = "[electronics, textile]"
      and f = ?f and k = 3 and num = Finite and g = ?g]
  from spec product have one: "price 3 usage 1 = Inr (Finite 25)"
    by (simp add: numeral_3_eq_3)
  from spec collection members
  have "price (Suc 2) usage purchase = Inr (foldl (\<lambda>t m. t + ?f m) 0 [electronics, textile])"
    by blast
  then have sum: "price 3 usage purchase = Inr (Finite 1635 + Finite 55)"
    by (simp add: numeral_3_eq_3 electronics_def textile_def zero_number_def Finite_add_exact)
  from spec exact collection members' sums
  have "price (Suc 2) usage purchase = Inr (Finite (\<Sum>m\<leftarrow>[electronics, textile]. ?g m))"
    by blast
  then have sum': "price 3 usage purchase = Inr (Finite (1635 + 55))"
    by (simp add: numeral_3_eq_3 electronics_def textile_def)
  from spec tree obtain v where "\<forall>d\<ge>3. price d usage purchase = Inr v"
    by blast
  then have "price 3 usage purchase = Inr v \<and> price 4 usage purchase = Inr v"
    by simp
  then have stable: "\<exists>v. price 3 usage purchase = Inr v \<and> price 4 usage purchase = Inr v"
    by blast
  let ?big = "[Product ''a'' (Finite (2 ^ 53)), Product ''b'' (Finite 1), Collection ''c'' [0, 1]]"
  let ?b = "\<lambda>m::ref. if m = 0 then Finite (2 ^ 53) else Finite 1"
  have big: "lookup ?big 2 = Some (Collection ''c'' [0, 1])"
    by (simp add: lookup_def)
  have bigs: "\<forall>m\<in>set [0, 1]. price 1 ?big m = Inr (?b m)"
    by (simp add: lookup_def)
  from price_spec [where h = ?big and r = 2 and cn = "''c''" and s = "[0, 1]" and n = 1 and f = ?b,
      THEN conjunct2, THEN conjunct1] big bigs
  have "price (Suc 1) ?big 2 = Inr (foldl (\<lambda>t m. t + ?b m) 0 [0, 1::ref])"
    by blast
  moreover have "Finite 0 + Finite (2 ^ 53) + Finite 1 = Finite (2 ^ 53)"
    by code_simp
  ultimately have rounded: "price 2 ?big 2 = Inr (Finite (2 ^ 53))"
    by (simp add: numeral_2_eq_2 zero_number_def)
  from members have "price 2 usage electronics = Inr (Finite 1635)"
    and "price 2 usage textile = Inr (Finite 55)"
    by (simp_all add: electronics_def textile_def)
  moreover have "exact_sums 0 [1635, 55]"
    using sums by (simp add: electronics_def textile_def)
  ultimately show ?thesis
    using product one collection sum exact sum' tree stable rounded by blast
qed

text \<open>
  Claim C3: \<open>draw\<close> on a composite calls \<open>draw\<close> on its children in the order in
  which they were added and returns; what it writes is what the first child writes,
  then what the second writes, and so on. The children are finite trees of leaves,
  composites and decorators, and the stack has room for their height. \<open>add\<close> puts
  the new child behind the ones already there, so the order of the sequence is the
  order of insertion. In the script, a composite of the leaves \<open>hello\<close> and
  \<open>world\<close> writes \<open>hello\<close>, then \<open>world\<close>.
\<close>

theorem ViewComposite_draw:
  assumes "lookup (heap s) r = Some (ViewComposite cs)"
    and "\<forall>c\<in>set cs. view_tree (heap s) c k"
    and "k \<le> n"
  shows "draw (Suc n) s r =
           (Returned, s\<lparr>console := console s @ concat (map (written k (heap s)) cs)\<rparr>) \<and>
         add s r c = (Returned, s\<lparr>heap := (heap s)[r := ViewComposite (cs @ [c])]\<rparr>)"
proof
  from assms(1) have "draw (Suc n) s r = forEach (draw n) cs s"
    by simp
  with forEach_view_trees [OF assms(2,3)]
  show "draw (Suc n) s r =
          (Returned, s\<lparr>console := console s @ concat (map (written k (heap s)) cs)\<rparr>)"
    by simp
next
  from assms(1) show "add s r c = (Returned, s\<lparr>heap := (heap s)[r := ViewComposite (cs @ [c])]\<rparr>)"
    by (simp add: add_def)
qed

theorem ViewComposite_draw_witness:
  "lookup (heap views) helloView = Some (ViewComposite [hello, world]) \<and>
   view_tree (heap views) hello 1 \<and> view_tree (heap views) world 1 \<and>
   written 1 (heap views) hello = [''hello''] \<and> written 1 (heap views) world = [''world''] \<and>
   draw 2 views helloView = (Returned, views\<lparr>console := [''hello'', ''world'']\<rparr>) \<and>
   add views helloView js =
     (Returned, views\<lparr>heap := (heap views)[helloView := ViewComposite [hello, world, js]]\<rparr>)"
proof -
  have composite: "lookup (heap views) helloView = Some (ViewComposite [hello, world])"
    by (simp add: views_eq lookup_def helloView_def hello_def world_def)
  have trees: "\<forall>c\<in>set [hello, world]. view_tree (heap views) c 1"
    by (simp add: views_eq lookup_def hello_def world_def)
  have room: "(1::nat) \<le> 1"
    by simp
  have lines: "written 1 (heap views) hello = [''hello'']" "written 1 (heap views) world = [''world'']"
    by (simp_all add: written_def views_eq lookup_def hello_def world_def console_log_def)
  have empty: "console views = []"
    by (simp add: views_eq)
  from ViewComposite_draw [OF composite trees room, of js] lines empty trees composite
  show ?thesis
    by (simp add: numeral_2_eq_2)
qed

text \<open>
  Claim C4: what \<open>draw\<close> writes on a decorator is the line \<open>NestedStart\<close>, then
  what its children write, in the order of the child sequence, then the line
  \<open>NestedEnd\<close>. The children are finite trees of leaves, composites and decorators,
  and the stack has room for their height.
\<close>

theorem DecoratorComposite_draw:
  assumes "lookup (heap s) r = Some (DecoratorComposite cs)"
    and "\<forall>c\<in>set cs. view_tree (heap s) c k"
    and "k \<le> n"
  shows "draw (Suc n) s r =
           (Returned,
            s\<lparr>console := console s @ [''NestedStart''] @
                concat (map (written k (heap s)) cs) @ [''NestedEnd'']\<rparr>)"
proof -
  let ?s = "console_log s ''NestedStart''"
  from assms(2) have "\<forall>c\<in>set cs. view_tree (heap ?s) c k"
    by (simp add: console_log_def)
  from forEach_view_trees [OF this assms(3)]
  have "forEach (draw n) cs ?s =
          (Returned, ?s\<lparr>console := console ?s @ concat (map (written k (heap s)) cs)\<rparr>)"
    by (simp add: console_log_def)
  with assms(1) show ?thesis
    by (simp add: console_log_def)
qed

theorem DecoratorComposite_draw_witness:
  "lookup (heap views) nestedView = Some (DecoratorComposite [helloView, jsView]) \<and>
   view_tree (heap views) helloView 2 \<and> view_tree (heap views) jsView 2 \<and>
   written 2 (heap views) helloView = [''hello'', ''world''] \<and>
   written 2 (heap views) jsView = [''world'', ''js''] \<and>
   draw 3 views nestedView =
     (Returned,
      views\<lparr>console := [''NestedStart'', ''hello'', ''world'', ''world'', ''js'', ''NestedEnd'']\<rparr>)"
proof -
  have decorator: "lookup (heap views) nestedView = Some (DecoratorComposite [helloView, jsView])"
    by (simp add: views_eq lookup_def nestedView_def helloView_def jsView_def)
  have trees: "\<forall>c\<in>set [helloView, jsView]. view_tree (heap views) c 2"
    by (simp add: views_eq lookup_def helloView_def jsView_def numeral_2_eq_2)
  have room: "(2::nat) \<le> 2"
    by simp
  have lines: "written 2 (heap views) helloView = [''hello'', ''world'']"
    "written 2 (heap views) jsView = [''world'', ''js'']"
    by (simp_all add: written_def views_eq lookup_def helloView_def jsView_def console_log_def
        numeral_2_eq_2)
  have empty: "console views = []"
    by (simp add: views_eq)
  from DecoratorComposite_draw [OF decorator trees room] lines empty trees decorator
  show ?thesis
    by (simp add: numeral_3_eq_3 numeral_2_eq_2)
qed

text \<open>
  Claim C5: calling an operation that the class of the receiver does not implement
  never succeeds. It throws, the state is what it was, and the caller gets the
  exception. \<open>draw\<close> on an instance of the base class throws the error
  \<open>Not implemented\<close>. The base class and the leaf have no method \<open>add\<close>,
  \<open>remove\<close> or \<open>[Symbol.iterator]\<close>, and calling one of them throws the
  \<open>TypeError\<close> of a call to a missing method. Nothing catches the error on the way:
  a composite whose first child is an instance of the base class throws that child's
  error from its own \<open>draw\<close>.
\<close>

theorem unsupported_operations:
  "(lookup (heap s) b = Some ViewComponent \<longrightarrow>
      draw (Suc n) s b = (Threw (Error ''Not implemented''), s) \<and>
      add s b c = (Threw TypeError, s) \<and>
      remove s b c = (Threw TypeError, s) \<and>
      Symbol_iterator s b = Inl TypeError) \<and>
   (lookup (heap s) l = Some (PrintLeaf str) \<longrightarrow>
      add s l c = (Threw TypeError, s) \<and>
      remove s l c = (Threw TypeError, s) \<and>
      Symbol_iterator s l = Inl TypeError) \<and>
   (lookup (heap s) r = Some (ViewComposite (b # rest)) \<and> lookup (heap s) b = Some ViewComponent \<longrightarrow>
      draw (Suc (Suc n)) s r = (Threw (Error ''Not implemented''), s))"
  by (simp add: add_def remove_def Symbol_iterator_def)

theorem unsupported_operations_witness:
  "lookup [ViewComponent, PrintLeaf ''hello'', ViewComposite [0, 1]] 0 = Some ViewComponent \<and>
   lookup [ViewComponent, PrintLeaf ''hello'', ViewComposite [0, 1]] 1 = Some (PrintLeaf ''hello'') \<and>
   lookup [ViewComponent, PrintLeaf ''hello'', ViewComposite [0, 1]] 2 = Some (ViewComposite [0, 1]) \<and>
   draw 1 \<lparr>heap = [ViewComponent, PrintLeaf ''hello'', ViewComposite [0, 1]], console = []\<rparr> 0 =
     (Threw (Error ''Not implemented''),
      \<lparr>heap = [ViewComponent, PrintLeaf ''hello'', ViewComposite [0, 1]], console = []\<rparr>) \<and>
   add \<lparr>heap = [ViewComponent, PrintLeaf ''hello'', ViewComposite [0, 1]], console = []\<rparr> 1 0 =
     (Threw TypeError,
      \<lparr>heap = [ViewComponent, PrintLeaf ''hello'', ViewComposite [0, 1]], console = []\<rparr>) \<and>
   remove \<lparr>heap = [ViewComponent, PrintLeaf ''hello'', ViewComposite [0, 1]], console = []\<rparr> 1 0 =
     (Threw TypeError,
      \<lparr>heap = [ViewComponent, PrintLeaf ''hello'', ViewComposite [0, 1]], console = []\<rparr>) \<and>
   Symbol_iterator
     \<lparr>heap = [ViewComponent, PrintLeaf ''hello'', ViewComposite [0, 1]], console = []\<rparr> 1 =
     Inl TypeError \<and>
   draw 2 \<lparr>heap = [ViewComponent, PrintLeaf ''hello'', ViewComposite [0, 1]], console = []\<rparr> 2 =
     (Threw (Error ''Not implemented''),
      \<lparr>heap = [ViewComponent, PrintLeaf ''hello'', ViewComposite [0, 1]], console = []\<rparr>)"
proof -
  let ?h = "[ViewComponent, PrintLeaf ''hello'', ViewComposite [0, 1]]"
  let ?s = "\<lparr>heap = ?h, console = []\<rparr>"
  have base: "lookup (heap ?s) 0 = Some ViewComponent"
    and leaf: "lookup (heap ?s) 1 = Some (PrintLeaf ''hello'')"
    and composite: "lookup (heap ?s) 2 = Some (ViewComposite (0 # [1]))"
    by (simp_all add: lookup_def)
  from unsupported_operations [of ?s 0 0 0 1 "''hello''" 2 "[1]"] base leaf composite
  show ?thesis
    by (simp add: numeral_2_eq_2)
qed

text \<open>
  Claim C6: a collection counts each reference once, however often it is passed to the
  constructor: its members are the references passed, each of them once, and its price
  is the host's sum of their prices; where the prices are integers and no partial sum
  leaves the range of magnitude \<open>2^53\<close>, that is the number of the sum over the set
  of the references. A product passed twice is added once. Two products made by two
  calls of the constructor with the same name and the same price are two references
  with equal contents, and each is added.
\<close>

theorem Collection_identity:
  "(new_Collection h cn products = (c, h') \<and> (\<forall>x\<in>set products. price n h' x = Inr (f x)) \<longrightarrow>
      price (Suc n) h' c = Inr (foldl (\<lambda>t x. t + f x) 0 (new_Set products)) \<and>
      distinct (new_Set products) \<and> set (new_Set products) = set products) \<and>
   (exact_addition num \<and> new_Collection h cn products = (c, h') \<and>
    (\<forall>x\<in>set products. price n h' x = Inr (num (g x))) \<and>
    exact_sums 0 (map g (new_Set products)) \<longrightarrow>
      price (Suc n) h' c = Inr (num (\<Sum>x\<in>set products. g x))) \<and>
   (new_Product h0 nm p = (a, h1) \<and> new_Collection h1 cn [a, a] = (c1, h2) \<longrightarrow>
      price (Suc (Suc n)) h2 c1 = Inr (0 + p)) \<and>
   (new_Product h0 nm p = (a, h1) \<and> new_Product h1 nm p = (b, h2') \<and>
    new_Collection h2' cn [a, b] = (c2, h3) \<longrightarrow>
      a \<noteq> b \<and> lookup h3 a = lookup h3 b \<and> price (Suc (Suc n)) h3 c2 = Inr (0 + p + p))"
proof (intro conjI impI)
  assume asm: "new_Collection h cn products = (c, h') \<and>
               (\<forall>x\<in>set products. price n h' x = Inr (f x))"
  then have "lookup h' c = Some (Collection cn (new_Set products))"
    using lookup_alloc_new [of h "Collection cn (new_Set products)" c h']
    by (simp add: new_Collection_def)
  moreover from asm have "\<And>x. x \<in> set (new_Set products) \<Longrightarrow> price n h' x = Inr (f x)"
    by (simp add: set_new_Set)
  ultimately show "price (Suc n) h' c = Inr (foldl (\<lambda>t x. t + f x) 0 (new_Set products))"
    by (rule price_Collection)
  show "distinct (new_Set products)"
    by (rule distinct_new_Set)
  show "set (new_Set products) = set products"
    by (rule set_new_Set)
next
  assume asm: "exact_addition num \<and> new_Collection h cn products = (c, h') \<and>
    (\<forall>x\<in>set products. price n h' x = Inr (num (g x))) \<and>
    exact_sums 0 (map g (new_Set products))"
  then have "lookup h' c = Some (Collection cn (new_Set products))"
    using lookup_alloc_new [of h "Collection cn (new_Set products)" c h']
    by (simp add: new_Collection_def)
  moreover from asm
  have "\<And>x. x \<in> set (new_Set products) \<Longrightarrow> price n h' x = Inr (num (g x))"
    by (simp add: set_new_Set)
  ultimately have "price (Suc n) h' c = Inr (num (\<Sum>x\<leftarrow>new_Set products. g x))"
    using asm price_Collection_exact [of num h' c cn "new_Set products" n g] by blast
  also have "(\<Sum>x\<leftarrow>new_Set products. g x) = (\<Sum>x\<in>set (new_Set products). g x)"
    by (rule sum_list_distinct_conv_sum_set) (rule distinct_new_Set)
  finally show "price (Suc n) h' c = Inr (num (\<Sum>x\<in>set products. g x))"
    by (simp add: set_new_Set)
next
  assume "new_Product h0 nm p = (a, h1) \<and> new_Collection h1 cn [a, a] = (c1, h2)"
  then have a: "a = length h0" and h1: "h1 = h0 @ [Product nm p]"
    and c1: "c1 = length h1" and h2: "h2 = h1 @ [Collection cn [a]]"
    by (auto simp: new_Product_def new_Collection_def alloc_def new_Set_twice)
  have "lookup h2 a = Some (Product nm p)"
    unfolding h2 h1 a by (simp add: lookup_def nth_append)
  then have member: "\<And>x. x \<in> set [a] \<Longrightarrow> price (Suc n) h2 x = Inr ((\<lambda>_. p) x)"
    by simp
  have "lookup h2 c1 = Some (Collection cn [a])"
    unfolding h2 c1 by (rule lookup_append_new)
  from price_Collection [OF this member] show "price (Suc (Suc n)) h2 c1 = Inr (0 + p)"
    by simp
next
  assume "new_Product h0 nm p = (a, h1) \<and> new_Product h1 nm p = (b, h2') \<and>
          new_Collection h2' cn [a, b] = (c2, h3)"
  then have a: "a = length h0" and h1: "h1 = h0 @ [Product nm p]"
    and b: "b = length h1" and h2: "h2' = h1 @ [Product nm p]"
    and c2: "c2 = length h2'" and h3: "h3 = h2' @ [Collection cn (new_Set [a, b])]"
    by (auto simp: new_Product_def new_Collection_def alloc_def)
  from a b h1 show ne: "a \<noteq> b"
    by simp
  have la: "lookup h3 a = Some (Product nm p)"
    unfolding h3 h2 h1 a by (simp add: lookup_def nth_append)
  have lb: "lookup h3 b = Some (Product nm p)"
    unfolding h3 h2 b by (simp add: lookup_def nth_append)
  from la lb show "lookup h3 a = lookup h3 b"
    by simp
  from la lb have member: "\<And>x. x \<in> set [a, b] \<Longrightarrow> price (Suc n) h3 x = Inr ((\<lambda>_. p) x)"
    by auto
  have "lookup h3 c2 = Some (Collection cn [a, b])"
    unfolding h3 c2 using ne by (simp add: new_Set_two lookup_append_new)
  from price_Collection [OF this member] show "price (Suc (Suc n)) h3 c2 = Inr (0 + p + p)"
    by simp
qed

theorem Collection_identity_witness:
  "new_Collection [Product ''Mouse'' (Finite 25), Product ''Mouse'' (Finite 25)] ''Twice'' [0, 0, 1] =
     (2, [Product ''Mouse'' (Finite 25), Product ''Mouse'' (Finite 25), Collection ''Twice'' [0, 1]]) \<and>
   price 1 [Product ''Mouse'' (Finite 25), Product ''Mouse'' (Finite 25), Collection ''Twice'' [0, 1]] 0 =
     Inr (Finite 25) \<and>
   price 1 [Product ''Mouse'' (Finite 25), Product ''Mouse'' (Finite 25), Collection ''Twice'' [0, 1]] 1 =
     Inr (Finite 25) \<and>
   new_Set [0, 0, 1] = [0, 1] \<and>
   exact_addition Finite \<and> exact_sums 0 [25, 25] \<and>
   price 2 [Product ''Mouse'' (Finite 25), Product ''Mouse'' (Finite 25), Collection ''Twice'' [0, 1]] 2 =
     Inr (Finite 50) \<and>
   new_Product [] ''Mouse'' (Finite 25) = (0, [Product ''Mouse'' (Finite 25)]) \<and>
   new_Collection [Product ''Mouse'' (Finite 25)] ''Same'' [0, 0] =
     (1, [Product ''Mouse'' (Finite 25), Collection ''Same'' [0]]) \<and>
   price 2 [Product ''Mouse'' (Finite 25), Collection ''Same'' [0]] 1 = Inr (Finite 25) \<and>
   new_Product [Product ''Mouse'' (Finite 25)] ''Mouse'' (Finite 25) =
     (1, [Product ''Mouse'' (Finite 25), Product ''Mouse'' (Finite 25)]) \<and>
   new_Collection [Product ''Mouse'' (Finite 25), Product ''Mouse'' (Finite 25)] ''Same'' [0, 1] =
     (2, [Product ''Mouse'' (Finite 25), Product ''Mouse'' (Finite 25), Collection ''Same'' [0, 1]]) \<and>
   price 2 [Product ''Mouse'' (Finite 25), Product ''Mouse'' (Finite 25), Collection ''Same'' [0, 1]] 2 =
     Inr (Finite 50)"
proof -
  let ?mouse = "Product ''Mouse'' (Finite 25)"
  let ?two = "[?mouse, ?mouse]"
  let ?twice = "?two @ [Collection ''Twice'' [0, 1]]"
  let ?f = "\<lambda>x::ref. Finite 25"
  let ?g = "\<lambda>x::ref. 25::int"
  have built: "new_Collection ?two ''Twice'' [0, 0, 1] = (2, ?twice)"
    by (simp add: new_Collection_def alloc_def new_Set_def Set_add_def)
  have members: "\<forall>x\<in>set [0, 0, 1]. price 1 ?twice x = Inr (?f x)"
    by (simp add: lookup_def)
  then have members': "\<forall>x\<in>set [0, 0, 1]. price 1 ?twice x = Inr (Finite (?g x))"
    by simp
  have kept: "new_Set [0, 0, 1] = [0, 1]"
    by (simp add: new_Set_def Set_add_def)
  have exact: "exact_addition Finite"
    by (rule exact_addition_Finite)
  have sums: "exact_sums 0 (map ?g (new_Set [0, 0, 1]))"
    unfolding kept by (simp add: exact_integer_def)
  have first: "new_Product [] ''Mouse'' (Finite 25) = (0, [?mouse])"
    by (simp add: new_Product_def alloc_def)
  have same: "new_Collection [?mouse] ''Same'' [0, 0] = (1, [?mouse, Collection ''Same'' [0]])"
    by (simp add: new_Collection_def alloc_def new_Set_def Set_add_def)
  have second: "new_Product [?mouse] ''Mouse'' (Finite 25) = (1, ?two)"
    by (simp add: new_Product_def alloc_def)
  have both: "new_Collection ?two ''Same'' [0, 1] = (2, ?two @ [Collection ''Same'' [0, 1]])"
    by (simp add: new_Collection_def alloc_def new_Set_def Set_add_def)
  note spec = Collection_identity [where h = ?two and cn = "''Twice''" and products = "[0, 0, 1]"
      and c = 2 and h' = ?twice and n = 1 and f = ?f and num = Finite and g = ?g]
  from spec [THEN conjunct1] built members
  have "price (Suc 1) ?twice 2 = Inr (foldl (\<lambda>t x. t + ?f x) 0 (new_Set [0, 0, 1]))"
    by blast
  then have "price (Suc 1) ?twice 2 = Inr (foldl (\<lambda>t x. t + ?f x) 0 [0, 1::ref])"
    unfolding kept .
  then have twice: "price 2 ?twice 2 = Inr (Finite 50)"
    by (simp add: numeral_2_eq_2 zero_number_def Finite_add_exact del: price.simps)
  from spec [THEN conjunct2, THEN conjunct1] exact built members' sums
  have "price (Suc 1) ?twice 2 = Inr (Finite (\<Sum>x\<in>set [0, 0, 1::ref]. ?g x))"
    by blast
  then have twice': "price 2 ?twice 2 = Inr (Finite 50)"
    by (simp add: numeral_2_eq_2 del: price.simps)
  note spec' = Collection_identity [where ?h0.0 = "[]" and nm = "''Mouse''" and p = "Finite 25"
      and a = 0 and ?h1.0 = "[?mouse]" and cn = "''Same''" and ?c1.0 = 1
      and ?h2.0 = "[?mouse, Collection ''Same'' [0]]" and n = 0
      and b = 1 and h2' = ?two and ?c2.0 = 2 and ?h3.0 = "?two @ [Collection ''Same'' [0, 1]]"]
  from spec' [THEN conjunct2, THEN conjunct2, THEN conjunct1] first same
  have "price (Suc (Suc 0)) [?mouse, Collection ''Same'' [0]] 1 = Inr (0 + Finite 25)"
    by blast
  then have once: "price 2 [?mouse, Collection ''Same'' [0]] 1 = Inr (Finite 25)"
    by (simp add: numeral_2_eq_2 zero_number_def Finite_add_exact del: price.simps)
  from spec' [THEN conjunct2, THEN conjunct2, THEN conjunct2] first second both
  have "price (Suc (Suc 0)) (?two @ [Collection ''Same'' [0, 1]]) 2 = Inr (0 + Finite 25 + Finite 25)"
    by blast
  then have each: "price 2 (?two @ [Collection ''Same'' [0, 1]]) 2 = Inr (Finite 50)"
    by (simp add: numeral_2_eq_2 zero_number_def Finite_add_exact del: price.simps)
  from members have "price 1 ?twice 0 = Inr (Finite 25)" and "price 1 ?twice 1 = Inr (Finite 25)"
    by simp_all
  moreover have "exact_sums 0 [25, 25]"
    by (simp add: exact_integer_def)
  ultimately show ?thesis
    using built kept exact twice twice' first same once second both each by simp
qed

text \<open>
  Claim C7: iterating a composite or a decorator yields its direct children, each
  occurrence once, in the order of insertion, and then ends; an iterator that has
  yielded \<open>i\<close> children yields the remaining ones; a child added at the end is
  yielded last. Children of children are not visited. An exhausted iterator yields
  nothing more, and every call of \<open>[Symbol.iterator]\<close> returns a new iterator at the
  start of the same sequence.
\<close>

theorem iterate_children:
  assumes "lookup (heap s) r = Some (ViewComposite cs) \<or>
           lookup (heap s) r = Some (DecoratorComposite cs)"
  shows "Symbol_iterator s r = Inr (ArrayIterator r 0) \<and>
         for_of s (ArrayIterator r 0) = cs \<and>
         for_of s (ArrayIterator r i) = drop i cs \<and>
         next_value s (ArrayIterator r (length cs)) = (None, Exhausted) \<and>
         for_of s Exhausted = [] \<and>
         for_of (snd (add s r c)) (ArrayIterator r 0) = cs @ [c]"
proof -
  from assms have children: "children_of (heap s) r = cs"
    by (auto simp: children_of_def)
  from assms have "Symbol_iterator s r = Inr (ArrayIterator r 0)"
    by (auto simp: Symbol_iterator_def)
  moreover from children have "for_of s (ArrayIterator r i) = drop i cs" for i
    by (simp add: for_of_drop)
  moreover from children have "next_value s (ArrayIterator r (length cs)) = (None, Exhausted)"
    by simp
  moreover have "for_of s Exhausted = []"
    by (simp add: for_of.simps [of s Exhausted])
  moreover have "for_of (snd (add s r c)) (ArrayIterator r 0) = cs @ [c]"
    using children_of_add [OF assms, of c] by (simp add: for_of_drop)
  ultimately show ?thesis
    by simp
qed

theorem iterate_children_witness:
  "lookup (heap views) nestedView = Some (DecoratorComposite [helloView, jsView]) \<and>
   Symbol_iterator views nestedView = Inr (ArrayIterator nestedView 0) \<and>
   for_of views (ArrayIterator nestedView 0) = [helloView, jsView] \<and>
   for_of views (ArrayIterator nestedView 1) = [jsView] \<and>
   next_value views (ArrayIterator nestedView 2) = (None, Exhausted) \<and>
   for_of (snd (add views nestedView js)) (ArrayIterator nestedView 0) = [helloView, jsView, js]"
proof -
  have decorator: "lookup (heap views) nestedView = Some (DecoratorComposite [helloView, jsView])"
    by (simp add: views_eq lookup_def nestedView_def helloView_def jsView_def)
  then have either: "lookup (heap views) nestedView = Some (ViewComposite [helloView, jsView]) \<or>
                     lookup (heap views) nestedView = Some (DecoratorComposite [helloView, jsView])"
    by simp
  from iterate_children [OF either, of 1 js] decorator show ?thesis
    by (simp add: numeral_2_eq_2 del: next_value.simps)
qed

text \<open>
  Claim C8: \<open>draw\<close> on a leaf writes one line, the text of the leaf, and returns.
  A second call writes the same line again, and the leaf is what it was.
\<close>

theorem PrintLeaf_draw:
  assumes "lookup (heap s) r = Some (PrintLeaf str)"
  shows "draw (Suc n) s r = (Returned, s\<lparr>console := console s @ [str]\<rparr>) \<and>
         draw (Suc m) (snd (draw (Suc n) s r)) r =
           (Returned, s\<lparr>console := console s @ [str] @ [str]\<rparr>) \<and>
         written (Suc n) (heap s) r = [str] \<and>
         written (Suc m) (heap (snd (draw (Suc n) s r))) r = [str] \<and>
         lookup (heap (snd (draw (Suc n) s r))) r = Some (PrintLeaf str)"
  using assms by (simp add: console_log_def written_def)

theorem PrintLeaf_draw_witness:
  "lookup (heap views) hello = Some (PrintLeaf ''hello'') \<and>
   draw 1 views hello = (Returned, views\<lparr>console := [''hello'']\<rparr>) \<and>
   draw 1 (snd (draw 1 views hello)) hello = (Returned, views\<lparr>console := [''hello'', ''hello'']\<rparr>) \<and>
   written 1 (heap views) hello = [''hello''] \<and>
   written 1 (heap (snd (draw 1 views hello))) hello = [''hello'']"
proof -
  have leaf: "lookup (heap views) hello = Some (PrintLeaf ''hello'')"
    by (simp add: views_eq lookup_def hello_def)
  have empty: "console views = []"
    by (simp add: views_eq)
  note spec = PrintLeaf_draw [OF leaf, of 0 0]
  from spec have first: "draw (Suc 0) views hello = (Returned, views\<lparr>console := console views @ [''hello'']\<rparr>)"
    by (rule conjunct1)
  from spec have again: "draw (Suc 0) (snd (draw (Suc 0) views hello)) hello =
      (Returned, views\<lparr>console := console views @ [''hello''] @ [''hello'']\<rparr>)"
    by blast
  from spec have lines: "written (Suc 0) (heap views) hello = [''hello'']"
    "written (Suc 0) (heap (snd (draw (Suc 0) views hello))) hello = [''hello'']"
    by blast+
  from leaf first again lines empty show ?thesis
    by (simp del: draw.simps)
qed

text \<open>
  Claim C9: a collection constructed with no member has the price 0, whatever the type
  of prices is; as a number of the host it is the number 0.
\<close>

theorem empty_Collection_price:
  "(case new_Collection h name [] of (c, h') \<Rightarrow> price (Suc n) h' c) = Inr 0 \<and>
   (case new_Collection numbers name [] of (c, h') \<Rightarrow> price (Suc n) h' c) = Inr (Finite 0)"
  by (simp add: new_Collection_def alloc_def new_Set_def lookup_def zero_number_def)

text \<open>
  Claim C10: \<open>draw\<close> leaves the store as it was, whatever the receiver is and however
  the call ends: the object drawn and its child sequence are the same before and after
  the call.
\<close>

theorem draw_keeps_children:
  "heap (snd (draw n s r)) = heap s \<and>
   lookup (heap (snd (draw n s r))) r = lookup (heap s) r \<and>
   children_of (heap (snd (draw n s r))) r = children_of (heap s) r"
  by (simp add: draw_heap)

end
